theory Spec2Isabelle
  imports Main "HOL-Library.Word"
begin

section \<open>Strings of the booking server\<close>

text \<open>
  A JavaScript string is a sequence of 16-bit code units; \<open>length\<close>, \<open>slice\<close>, \<open>trim\<close>
  and the regular expressions of \<^verbatim>\<open>server.js\<close> (none has the \<^verbatim>\<open>u\<close> flag) all work on code
  units. \<open>js\<close> writes an ASCII literal as such a string.
\<close>

type_synonym jsstring = "16 word list"

definition js :: "string \<Rightarrow> jsstring" where
  "js s = map of_char s"

text \<open>
  The white space of ECMAScript (WhiteSpace and LineTerminator): what \<^verbatim>\<open>\s\<close> matches in a
  regular expression, what \<^verbatim>\<open>trim()\<close> strips and what \<^verbatim>\<open>parseInt\<close> skips. TAB, LF, VT, FF, CR,
  SP, NBSP, U+1680, U+2000..U+200A, U+2028, U+2029, U+202F, U+205F, U+3000, U+FEFF.
\<close>

definition isWhiteSpace :: "16 word \<Rightarrow> bool" where
  "isWhiteSpace c =
     (c = 9 \<or> c = 10 \<or> c = 11 \<or> c = 12 \<or> c = 13 \<or> c = 32 \<or> c = 160 \<or> c = 5760
      \<or> (8192 \<le> c \<and> c \<le> 8202) \<or> c = 8232 \<or> c = 8233 \<or> c = 8239 \<or> c = 8287
      \<or> c = 12288 \<or> c = 65279)"

definition isDigit :: "16 word \<Rightarrow> bool" where
  "isDigit c = (48 \<le> c \<and> c \<le> 57)"

text \<open>\<^verbatim>\<open>String.prototype.trim\<close> and \<^verbatim>\<open>slice(0, n)\<close>.\<close>

definition trim :: "jsstring \<Rightarrow> jsstring" where
  "trim s = rev (dropWhile isWhiteSpace (rev (dropWhile isWhiteSpace s)))"

definition slice0 :: "nat \<Rightarrow> jsstring \<Rightarrow> jsstring" where
  "slice0 n s = take n s"

text \<open>
  A field of the request body is a string or is left out (\<open>None\<close>, JavaScript's
  \<^verbatim>\<open>undefined\<close>): the submission is a mapping of field names to strings, which is what the
  form client posts. \<open>falsy\<close> is \<^verbatim>\<open>!v\<close> on such a value, \<open>ToString\<close> the coercion a
  regular expression test and \<^verbatim>\<open>parseInt\<close> apply to their argument.
\<close>

type_synonym jsvalue = "jsstring option"

definition falsy :: "jsvalue \<Rightarrow> bool" where
  "falsy v = (case v of None \<Rightarrow> True | Some s \<Rightarrow> s = [])"

definition ToString :: "jsvalue \<Rightarrow> jsstring" where
  "ToString v = (case v of None \<Rightarrow> js ''undefined'' | Some s \<Rightarrow> s)"

section \<open>Regular expressions\<close>

text \<open>
  The two patterns of \<^verbatim>\<open>server.js\<close> are anchored at both ends (\<^verbatim>\<open>^...$\<close>, no \<^verbatim>\<open>m\<close> flag), so
  \<^verbatim>\<open>test\<close> answers whether the whole string is in the pattern's language. Patterns are
  syntax trees over character classes; \<open>test\<close> decides membership by derivatives.
\<close>

datatype regex =
    Empty
  | Eps
  | Class "16 word \<Rightarrow> bool"
  | Or regex regex
  | Then regex regex
  | Many regex

fun nullable :: "regex \<Rightarrow> bool" where
  "nullable Empty = False"
| "nullable Eps = True"
| "nullable (Class p) = False"
| "nullable (Or r s) = (nullable r \<or> nullable s)"
| "nullable (Then r s) = (nullable r \<and> nullable s)"
| "nullable (Many r) = True"

fun deriv :: "16 word \<Rightarrow> regex \<Rightarrow> regex" where
  "deriv c Empty = Empty"
| "deriv c Eps = Empty"
| "deriv c (Class p) = (if p c then Eps else Empty)"
| "deriv c (Or r s) = Or (deriv c r) (deriv c s)"
| "deriv c (Then r s) =
     (if nullable r then Or (Then (deriv c r) s) (deriv c s) else Then (deriv c r) s)"
| "deriv c (Many r) = Then (deriv c r) (Many r)"

fun test :: "regex \<Rightarrow> jsstring \<Rightarrow> bool" where
  "test r [] = nullable r"
| "test r (c # cs) = test (deriv c r) cs"

text \<open>\<^verbatim>\<open>r+\<close> is \<^verbatim>\<open>rr*\<close>, and \<^verbatim>\<open>r{n,}\<close> is n copies of r followed by \<^verbatim>\<open>r*\<close>.\<close>

definition OneOrMore :: "regex \<Rightarrow> regex" where
  "OneOrMore r = Then r (Many r)"

fun AtLeast :: "nat \<Rightarrow> regex \<Rightarrow> regex" where
  "AtLeast 0 r = Many r"
| "AtLeast (Suc n) r = Then r (AtLeast n r)"

section \<open>Validators and sanitizers\<close>

text \<open>\<^verbatim>\<open>[^\s@]\<close>, and \<^verbatim>\<open>[0-9\-\+\(\)\s]\<close>: a digit, hyphen, plus, parenthesis or white space.\<close>

definition notSpaceAt :: "16 word \<Rightarrow> bool" where
  "notSpaceAt c = (\<not> isWhiteSpace c \<and> c \<noteq> 64)"

definition phoneChar :: "16 word \<Rightarrow> bool" where
  "phoneChar c = (isDigit c \<or> c = 45 \<or> c = 43 \<or> c = 40 \<or> c = 41 \<or> isWhiteSpace c)"

text \<open>\<^verbatim>\<open>/^[^\s@]+@[^\s@]+\.[^\s@]+$/\<close> and \<^verbatim>\<open>/^[0-9\-\+\(\)\s]{7,}$/\<close>.\<close>

definition emailPattern :: regex where
  "emailPattern =
     Then (OneOrMore (Class notSpaceAt))
       (Then (Class (\<lambda>c. c = 64))
         (Then (OneOrMore (Class notSpaceAt))
           (Then (Class (\<lambda>c. c = 46)) (OneOrMore (Class notSpaceAt)))))"

definition phonePattern :: regex where
  "phonePattern = AtLeast 7 (Class phoneChar)"

definition isEmail :: "jsvalue \<Rightarrow> bool" where
  "isEmail v = test emailPattern (ToString v)"

definition isPhone :: "jsvalue \<Rightarrow> bool" where
  "isPhone v = test phonePattern (ToString v)"

text \<open>\<^verbatim>\<open>String(v || '').trim().slice(0, n)\<close> with n = 2000 and n = 200.\<close>

definition orEmpty :: "jsvalue \<Rightarrow> jsstring" where
  "orEmpty v = (if falsy v then [] else ToString v)"

definition sanitizeText :: "jsvalue \<Rightarrow> jsstring" where
  "sanitizeText v = slice0 2000 (trim (orEmpty v))"

definition sanitizeSmallText :: "jsvalue \<Rightarrow> jsstring" where
  "sanitizeSmallText v = slice0 200 (trim (orEmpty v))"

section \<open>Integer coercion\<close>

text \<open>
  A JavaScript number is a double. The numbers \<^verbatim>\<open>parseInt\<close> returns are NaN, an infinity, or
  a double whose value is an integer (the sign of zero is not kept: \<^verbatim>\<open>-0\<close> is stored and
  printed as 0).
\<close>

datatype jsnumber = NaN | PosInfinity | NegInfinity | Finite int

function bitLength :: "int \<Rightarrow> nat" where
  "bitLength n = (if n \<le> 0 then 0 else Suc (bitLength (n div 2)))"
  by pat_completeness auto
termination
  by (relation "measure nat") auto

declare bitLength.simps [simp del]

text \<open>
  The double nearest to a non-negative integer, ties to the even significand (53 bits);
  \<open>None\<close> when the rounded value leaves the range of the finite doubles.
\<close>

definition roundToDouble :: "int \<Rightarrow> int option" where
  "roundToDouble n =
     (if n < 2 ^ 53 then Some n
      else
        let e = bitLength n - 53;
            q = n div 2 ^ e;
            r = n mod 2 ^ e;
            h = 2 ^ (e - 1);
            q' = (if h < r \<or> (r = h \<and> odd q) then q + 1 else q);
            m = q' * 2 ^ e
        in if 2 ^ 1024 \<le> m then None else Some m)"

definition digitValue :: "16 word \<Rightarrow> int" where
  "digitValue c = uint c - 48"

definition decimalValue :: "jsstring \<Rightarrow> int" where
  "decimalValue ds = foldl (\<lambda>a c. 10 * a + digitValue c) 0 ds"

text \<open>
  \<^verbatim>\<open>parseInt(v, 10)\<close>: the argument as a string, leading white space skipped, an optional
  sign, then the longest run of decimal digits; NaN when that run is empty. What follows
  the digits is ignored.
\<close>

definition parseInt :: "jsvalue \<Rightarrow> jsnumber" where
  "parseInt v =
     (let s = dropWhile isWhiteSpace (ToString v);
          negative = (s \<noteq> [] \<and> hd s = 45);
          s' = (if s \<noteq> [] \<and> (hd s = 43 \<or> hd s = 45) then tl s else s);
          z = takeWhile isDigit s'
      in if z = [] then NaN
         else case roundToDouble (decimalValue z) of
                None \<Rightarrow> (if negative then NegInfinity else PosInfinity)
              | Some m \<Rightarrow> Finite (if negative then - m else m))"

text \<open>\<^verbatim>\<open>toInt(v, def = null)\<close>, always called with \<^verbatim>\<open>def = null\<close>: \<open>None\<close> is \<^verbatim>\<open>null\<close>.\<close>

definition toInt :: "jsvalue \<Rightarrow> int option" where
  "toInt v = (case parseInt v of Finite n \<Rightarrow> Some n | _ \<Rightarrow> None)"

section \<open>Dates\<close>

text \<open>
  A \<^verbatim>\<open>Date\<close> holds a time value, milliseconds since the epoch within 8.64e15 of it, or is
  invalid (\<open>None\<close>). \<open>TimeClip\<close> is what \<^verbatim>\<open>new Date(number)\<close> keeps of a number.
\<close>

type_synonym jsdate = "int option"

definition TimeClip :: "int option \<Rightarrow> jsdate" where
  "TimeClip v =
     (case v of None \<Rightarrow> None
      | Some t \<Rightarrow> if \<bar>t\<bar> \<le> 8640000000000000 then Some t else None)"

function decimalDigits :: "int \<Rightarrow> jsstring" where
  "decimalDigits n =
     (if n < 10 then [of_int (48 + n)]
      else decimalDigits (n div 10) @ [of_int (48 + n mod 10)])"
  by pat_completeness auto
termination
  by (relation "measure nat") auto

declare decimalDigits.simps [simp del]

definition padStart :: "nat \<Rightarrow> jsstring \<Rightarrow> jsstring" where
  "padStart k s = replicate (k - length s) 48 @ s"

definition pad :: "nat \<Rightarrow> int \<Rightarrow> jsstring" where
  "pad k n = padStart k (decimalDigits n)"

text \<open>
  The calendar date of a day number (days since 1970-01-01, proleptic Gregorian), as
  ECMAScript's YearFromTime, MonthFromTime and DateFromTime give it.
\<close>

definition civilFromDays :: "int \<Rightarrow> int \<times> int \<times> int" where
  "civilFromDays days =
     (let z = days + 719468;
          era = z div 146097;
          doe = z mod 146097;
          yoe = (doe - doe div 1460 + doe div 36524 - doe div 146096) div 365;
          doy = doe - (365 * yoe + yoe div 4 - yoe div 100);
          mp = (5 * doy + 2) div 153;
          d = doy - (153 * mp + 2) div 5 + 1;
          m = (if mp < 10 then mp + 3 else mp - 9);
          y = yoe + era * 400 + (if m \<le> 2 then 1 else 0)
      in (y, m, d))"

text \<open>
  \<^verbatim>\<open>Date.prototype.toISOString\<close>: \<^verbatim>\<open>YYYY-MM-DDTHH:mm:ss.sssZ\<close> in UTC, the year with a sign and
  six digits outside 0..9999.
\<close>

definition isoOfTime :: "int \<Rightarrow> jsstring" where
  "isoOfTime t =
     (let days = t div 86400000;
          ms = t mod 86400000;
          (y, m, d) = civilFromDays days;
          year = (if 0 \<le> y \<and> y \<le> 9999 then pad 4 y
                  else (if y < 0 then 45 else 43) # pad 6 \<bar>y\<bar>)
      in year @ [45] @ pad 2 m @ [45] @ pad 2 d @ [84]
         @ pad 2 (ms div 3600000) @ [58] @ pad 2 (ms div 60000 mod 60) @ [58]
         @ pad 2 (ms div 1000 mod 60) @ [46] @ pad 3 (ms mod 1000) @ [90])"

datatype error = RangeError | DatabaseError | MailError

definition toISOString :: "jsdate \<Rightarrow> error + jsstring" where
  "toISOString d = (case d of None \<Rightarrow> Inl RangeError | Some t \<Rightarrow> Inr (isoOfTime t))"

section \<open>The booking handler's data\<close>

text \<open>The fields the handler reads from \<^verbatim>\<open>req.body\<close>; \<^verbatim>\<open>website\<close> is the honeypot.\<close>

record submission =
  body_name :: jsvalue
  body_email :: jsvalue
  body_phone :: jsvalue
  body_address :: jsvalue
  body_serviceType :: jsvalue
  body_sqft :: jsvalue
  body_preferredDate :: jsvalue
  body_preferredTime :: jsvalue
  body_notes :: jsvalue
  body_website :: jsvalue

text \<open>The object \<^verbatim>\<open>clean\<close>, and the row the INSERT binds: \<^verbatim>\<open>clean\<close>'s fields and \<open>createdAt\<close>.\<close>

record clean =
  clean_name :: jsstring
  clean_email :: jsstring
  clean_phone :: jsstring
  clean_address :: jsstring
  clean_serviceType :: jsstring
  clean_sqft :: "int option"
  clean_preferredDate :: jsstring
  clean_preferredTime :: jsstring
  clean_notes :: jsstring

record row = clean +
  createdAt :: jsstring

text \<open>A message for \<^verbatim>\<open>transporter.sendMail\<close>; \<open>mail_ics\<close> is the content of \<^verbatim>\<open>booking.ics\<close>.\<close>

record mail =
  mail_from :: jsvalue
  mail_to :: jsvalue
  mail_subject :: jsstring
  mail_text :: jsstring
  mail_ics :: jsstring

text \<open>
  What the handler does to the outside, in order: an INSERT and whether \<^verbatim>\<open>db.run\<close> resolved
  (\<open>True\<close>) or rejected, a \<^verbatim>\<open>sendMail\<close> and whether it resolved or rejected.
\<close>

datatype event = DbInsert row bool | SendMail mail bool

text \<open>The response: status, the \<^verbatim>\<open>ok\<close> flag and the text under \<^verbatim>\<open>message\<close> or \<^verbatim>\<open>error\<close>.\<close>

datatype response = Response nat bool jsstring

text \<open>
  The handler's surroundings: the environment variables it reads, the system clock (its
  successive readings, in milliseconds), \<^verbatim>\<open>new Date(string)\<close> (implementation-defined and in
  the server's time zone for a string without offset), the text \<^verbatim>\<open>Number::toString\<close> gives
  a double of magnitude 2^53 and more (the shortest digits that read back as that double,
  in exponent notation from 1e21 on), and the outcomes of the database and of the mail
  transport.
\<close>

record env =
  BRAND_NAME_var :: jsvalue
  TO_EMAIL :: jsvalue
  FROM_EMAIL :: jsvalue
  SMTP_USER :: jsvalue
  clock :: "nat \<Rightarrow> int"
  dateParse :: "jsstring \<Rightarrow> int option"
  largeNumberText :: "int \<Rightarrow> jsstring"
  dbRun :: "row \<Rightarrow> bool"
  sendMail :: "mail \<Rightarrow> bool"

text \<open>\<^verbatim>\<open>a || b\<close>, and \<^verbatim>\<open>process.env.BRAND_NAME || "Pressure Washing"\<close>.\<close>

definition orElse :: "jsvalue \<Rightarrow> jsvalue \<Rightarrow> jsvalue" where
  "orElse a b = (if falsy a then b else a)"

definition BRAND_NAME :: "env \<Rightarrow> jsstring" where
  "BRAND_NAME e = ToString (orElse (BRAND_NAME_var e) (Some (js ''Pressure Washing'')))"

text \<open>
  A number with an integer value in a template literal: below 2^53 every integer is a
  double of its own and prints as its decimal digits; from there on the platform picks
  the digits.
\<close>

definition NumberToString :: "env \<Rightarrow> int \<Rightarrow> jsstring" where
  "NumberToString e n =
     (if \<bar>n\<bar> < 2 ^ 53 then (if n < 0 then 45 # decimalDigits (- n) else decimalDigits n)
      else largeNumberText e n)"

text \<open>\<^verbatim>\<open>new Date(string)\<close>: what the platform parses, invalid when outside the range of dates.\<close>

definition newDate :: "env \<Rightarrow> jsstring \<Rightarrow> jsdate" where
  "newDate e s = TimeClip (dateParse e s)"

section \<open>The calendar builder\<close>

fun join :: "jsstring \<Rightarrow> jsstring list \<Rightarrow> jsstring" where
  "join sep [] = []"
| "join sep [x] = x"
| "join sep (x # y # ys) = x @ sep @ join sep (y # ys)"

text \<open>\<^verbatim>\<open>new Date(iso).toISOString().replace(/[-:]/g, '').split('.')[0] + 'Z'\<close>.\<close>

definition compactStamp :: "jsstring \<Rightarrow> jsstring" where
  "compactStamp s = takeWhile (\<lambda>c. c \<noteq> 46) (filter (\<lambda>c. c \<noteq> 45 \<and> c \<noteq> 58) s) @ js ''Z''"

definition toICSDate :: "env \<Rightarrow> jsstring \<Rightarrow> error + jsstring" where
  "toICSDate e isoText =
     (case toISOString (newDate e isoText) of
        Inl err \<Rightarrow> Inl err
      | Inr s \<Rightarrow> Inr (compactStamp s))"

definition escapeNewlines :: "jsstring \<Rightarrow> jsstring" where
  "escapeNewlines s = concat (map (\<lambda>c. if c = 10 then [92, 110] else [c]) s)"

text \<open>The lines of the calendar text, which \<^verbatim>\<open>buildICS\<close> joins with CR LF.\<close>

definition icsLines ::
  "jsstring \<Rightarrow> jsstring \<Rightarrow> jsstring \<Rightarrow> jsstring \<Rightarrow> jsstring \<Rightarrow> jsstring \<Rightarrow> jsstring list" where
  "icsLines uid dtstamp dtstart dtend summary description =
     [js ''BEGIN:VCALENDAR'',
      js ''VERSION:2.0'',
      js ''PRODID:-//PressureWash//Booking//EN'',
      js ''CALSCALE:GREGORIAN'',
      js ''METHOD:PUBLISH'',
      js ''BEGIN:VEVENT'',
      js ''UID:'' @ uid,
      js ''DTSTAMP:'' @ dtstamp,
      js ''DTSTART:'' @ dtstart,
      js ''DTEND:'' @ dtend,
      js ''SUMMARY:'' @ summary,
      js ''DESCRIPTION:'' @ escapeNewlines description,
      js ''END:VEVENT'',
      js ''END:VCALENDAR'']"

text \<open>
  \<^verbatim>\<open>buildICS\<close> reads the clock twice, for the UID and for DTSTAMP, and passes each of its three
  dates through \<^verbatim>\<open>toICSDate\<close>.
\<close>

definition buildICS :: "env \<Rightarrow> jsstring \<Rightarrow> jsstring \<Rightarrow> jsstring \<Rightarrow> jsstring \<Rightarrow> error + jsstring" where
  "buildICS e summary description startISO endISO =
     (let uid = js ''booking-'' @ NumberToString e (clock e 1) @ js ''@pressurewash'' in
      case toICSDate e (isoOfTime (clock e 2)) of
        Inl err \<Rightarrow> Inl err
      | Inr dtstamp \<Rightarrow>
      case toICSDate e startISO of
        Inl err \<Rightarrow> Inl err
      | Inr dtstart \<Rightarrow>
      case toICSDate e endISO of
        Inl err \<Rightarrow> Inl err
      | Inr dtend \<Rightarrow>
        Inr (join [13, 10] (icsLines uid dtstamp dtstart dtend summary description)))"

section \<open>The handler of POST /api/bookings\<close>

text \<open>\<^verbatim>\<open>website && website.trim() !== ''\<close>.\<close>

definition honeypot :: "submission \<Rightarrow> bool" where
  "honeypot b = (\<not> falsy (body_website b) \<and> trim (ToString (body_website b)) \<noteq> [])"

text \<open>\<^verbatim>\<open>!name || !email || !phone || !address || !serviceType || !preferredDate || !preferredTime\<close>.\<close>

definition missingRequired :: "submission \<Rightarrow> bool" where
  "missingRequired b =
     (falsy (body_name b) \<or> falsy (body_email b) \<or> falsy (body_phone b)
      \<or> falsy (body_address b) \<or> falsy (body_serviceType b)
      \<or> falsy (body_preferredDate b) \<or> falsy (body_preferredTime b))"

definition sanitize :: "submission \<Rightarrow> clean" where
  "sanitize b =
     \<lparr> clean_name = sanitizeSmallText (body_name b),
       clean_email = sanitizeSmallText (body_email b),
       clean_phone = sanitizeSmallText (body_phone b),
       clean_address = sanitizeText (body_address b),
       clean_serviceType = sanitizeSmallText (body_serviceType b),
       clean_sqft = toInt (body_sqft b),
       clean_preferredDate = sanitizeSmallText (body_preferredDate b),
       clean_preferredTime = sanitizeSmallText (body_preferredTime b),
       clean_notes = sanitizeText (body_notes b) \<rparr>"

text \<open>The parameters of the INSERT, in the order of its columns.\<close>

definition insertParams :: "clean \<Rightarrow> jsstring \<Rightarrow> row" where
  "insertParams c created =
     \<lparr> clean_name = clean_name c,
       clean_email = clean_email c,
       clean_phone = clean_phone c,
       clean_address = clean_address c,
       clean_serviceType = clean_serviceType c,
       clean_sqft = clean_sqft c,
       clean_preferredDate = clean_preferredDate c,
       clean_preferredTime = clean_preferredTime c,
       clean_notes = clean_notes c,
       createdAt = created \<rparr>"

text \<open>The dash of the subjects and of the summary is U+2014.\<close>

definition summaryOf :: "env \<Rightarrow> clean \<Rightarrow> jsstring" where
  "summaryOf e c = BRAND_NAME e @ [32, 8212, 32] @ clean_serviceType c"

definition descriptionOf :: "env \<Rightarrow> clean \<Rightarrow> jsstring" where
  "descriptionOf e c =
     join [10] (filter (\<lambda>l. l \<noteq> [])
       [js ''Name: '' @ clean_name c,
        js ''Email: '' @ clean_email c,
        js ''Phone: '' @ clean_phone c,
        js ''Address: '' @ clean_address c,
        js ''Service: '' @ clean_serviceType c,
        js ''Sq Ft: '' @ (case clean_sqft c of None \<Rightarrow> js ''N/A'' | Some n \<Rightarrow> NumberToString e n),
        js ''Preferred: '' @ clean_preferredDate c @ js '' '' @ clean_preferredTime c,
        (if clean_notes c \<noteq> [] then js ''Notes: '' @ clean_notes c else [])])"

text \<open>
  The appointment: \<^verbatim>\<open>new Date(`${clean.preferredDate}T${clean.preferredTime}:00`)\<close>, and the
  date one hour (\<^verbatim>\<open>60*60*1000\<close> milliseconds) after it.
\<close>

definition appointmentStart :: "env \<Rightarrow> clean \<Rightarrow> jsdate" where
  "appointmentStart e c =
     newDate e (clean_preferredDate c @ js ''T'' @ clean_preferredTime c @ js '':00'')"

definition appointmentEnd :: "env \<Rightarrow> clean \<Rightarrow> jsdate" where
  "appointmentEnd e c = TimeClip (map_option (\<lambda>t. t + 60 * 60 * 1000) (appointmentStart e c))"

text \<open>The calendar payload \<^verbatim>\<open>ics\<close>; \<^verbatim>\<open>toISOString\<close> throws on an invalid date.\<close>

definition calendarPayload :: "env \<Rightarrow> clean \<Rightarrow> error + jsstring" where
  "calendarPayload e c =
     (case toISOString (appointmentStart e c) of
        Inl err \<Rightarrow> Inl err
      | Inr startISO \<Rightarrow>
      case toISOString (appointmentEnd e c) of
        Inl err \<Rightarrow> Inl err
      | Inr endISO \<Rightarrow> buildICS e (summaryOf e c) (descriptionOf e c) startISO endISO)"

definition ownerMail :: "env \<Rightarrow> clean \<Rightarrow> jsstring \<Rightarrow> mail" where
  "ownerMail e c ics =
     \<lparr> mail_from = orElse (FROM_EMAIL e) (SMTP_USER e),
       mail_to = TO_EMAIL e,
       mail_subject = js ''New Booking '' @ [8212, 32] @ clean_name c @ [32, 8212, 32]
                        @ clean_serviceType c,
       mail_text = descriptionOf e c,
       mail_ics = ics \<rparr>"

definition customerMail :: "env \<Rightarrow> clean \<Rightarrow> jsstring \<Rightarrow> mail" where
  "customerMail e c ics =
     \<lparr> mail_from = orElse (FROM_EMAIL e) (SMTP_USER e),
       mail_to = Some (clean_email c),
       mail_subject = js ''Thanks! We received your request '' @ [8212, 32] @ BRAND_NAME e,
       mail_text = js ''Hi '' @ clean_name c @ [44, 10, 10]
                     @ js ''Thanks for reaching out to '' @ BRAND_NAME e @ [33, 10, 10]
                     @ js ''We have your request for '' @ clean_serviceType c
                     @ js '' at '' @ clean_address c @ js '' on '' @ clean_preferredDate c
                     @ js '' at '' @ clean_preferredTime c
                     @ js ''. We'' @ [39] @ js ''ll confirm shortly.'' @ [10, 10, 8212, 32]
                     @ BRAND_NAME e,
       mail_ics = ics \<rparr>"

definition serverError :: response where
  "serverError = Response 500 False (js ''Server error.'')"

definition bookingReceived :: response where
  "bookingReceived = Response 200 True (js ''Booking received.'')"

text \<open>
  The two sends: the owner's when \<^verbatim>\<open>TO_EMAIL\<close> is set, then the customer's when the sanitized
  address still passes \<^verbatim>\<open>isEmail\<close>. A rejected \<^verbatim>\<open>sendMail\<close> throws into the handler's \<^verbatim>\<open>catch\<close>:
  nothing after it runs and the response is the server error.
\<close>

definition confirmCustomer :: "env \<Rightarrow> clean \<Rightarrow> jsstring \<Rightarrow> event list \<Rightarrow> response \<times> event list" where
  "confirmCustomer e c ics sent =
     (if isEmail (Some (clean_email c))
      then (if sendMail e (customerMail e c ics)
            then (bookingReceived, sent @ [SendMail (customerMail e c ics) True])
            else (serverError, sent @ [SendMail (customerMail e c ics) False]))
      else (bookingReceived, sent))"

definition notify :: "env \<Rightarrow> clean \<Rightarrow> jsstring \<Rightarrow> response \<times> event list" where
  "notify e c ics =
     (if falsy (TO_EMAIL e) then confirmCustomer e c ics []
      else if sendMail e (ownerMail e c ics)
      then confirmCustomer e c ics [SendMail (ownerMail e c ics) True]
      else (serverError, [SendMail (ownerMail e c ics) False]))"

text \<open>
  The handler: the honeypot gate, the three validation checks, the INSERT, the calendar
  payload, the two sends. Whatever throws inside its \<^verbatim>\<open>try\<close> (a rejected \<^verbatim>\<open>db.run\<close>,
  \<^verbatim>\<open>toISOString\<close> on an invalid date, a rejected \<^verbatim>\<open>sendMail\<close>) ends in the \<^verbatim>\<open>catch\<close>, which
  answers with the status 500. \<^verbatim>\<open>getTransporter\<close> only builds the transport object and
  the console output is not part of the response: neither is modelled.
\<close>

definition postBookings :: "env \<Rightarrow> submission \<Rightarrow> response \<times> event list" where
  "postBookings e b =
     (if honeypot b then (Response 200 True (js ''Thanks!''), [])
      else if missingRequired b
      then (Response 400 False (js ''Missing required fields.''), [])
      else if \<not> isEmail (body_email b)
      then (Response 400 False (js ''Invalid email address.''), [])
      else if \<not> isPhone (body_phone b)
      then (Response 400 False (js ''Invalid phone number.''), [])
      else
        let c = sanitize b;
            r = insertParams c (isoOfTime (clock e 0))
        in if \<not> dbRun e r then (serverError, [DbInsert r False])
           else case calendarPayload e c of
                  Inl err \<Rightarrow> (serverError, [DbInsert r True])
                | Inr ics \<Rightarrow> (fst (notify e c ics), DbInsert r True # snd (notify e c ics)))"

text \<open>A submission that passes the honeypot gate and the three validation checks.\<close>

definition accepted :: "submission \<Rightarrow> bool" where
  "accepted b =
     (\<not> honeypot b \<and> \<not> missingRequired b \<and> isEmail (body_email b) \<and> isPhone (body_phone b))"

text \<open>The rows a run adds to the table, and the messages it hands to the transport.\<close>

fun persisted :: "event list \<Rightarrow> row list" where
  "persisted [] = []"
| "persisted (DbInsert r ok # evs) = (if ok then r # persisted evs else persisted evs)"
| "persisted (SendMail m ok # evs) = persisted evs"

fun attempted :: "event list \<Rightarrow> mail list" where
  "attempted [] = []"
| "attempted (DbInsert r ok # evs) = attempted evs"
| "attempted (SendMail m ok # evs) = m # attempted evs"

section \<open>The shapes the validators accept\<close>

text \<open>
  An address the email check accepts: up to the first \<^verbatim>\<open>@\<close> a local part that is not empty
  and has no white space; after it a domain without white space or \<^verbatim>\<open>@\<close> that has a dot
  with at least one character on each side.
\<close>

definition emailShape :: "jsstring \<Rightarrow> bool" where
  "emailShape s =
     (let localPart = takeWhile (\<lambda>c. c \<noteq> 64) s;
          rest = dropWhile (\<lambda>c. c \<noteq> 64) s;
          domainPart = tl rest
      in localPart \<noteq> [] \<and> list_all (\<lambda>c. \<not> isWhiteSpace c) localPart \<and> rest \<noteq> []
         \<and> list_all (\<lambda>c. \<not> isWhiteSpace c \<and> c \<noteq> 64) domainPart
         \<and> 46 \<in> set (butlast (tl domainPart)))"

text \<open>
  A phone number the phone check accepts: seven or more characters, each a digit, a hyphen,
  a plus, a parenthesis or white space. \<open>plainPhoneShape\<close> is the same with the space
  (U+0020) as the only white space.
\<close>

definition phoneShape :: "jsstring \<Rightarrow> bool" where
  "phoneShape s =
     (7 \<le> length s
      \<and> list_all (\<lambda>c. (48 \<le> c \<and> c \<le> 57) \<or> c = 45 \<or> c = 43 \<or> c = 40 \<or> c = 41
                        \<or> isWhiteSpace c) s)"

definition plainPhoneShape :: "jsstring \<Rightarrow> bool" where
  "plainPhoneShape s =
     (7 \<le> length s
      \<and> list_all (\<lambda>c. (48 \<le> c \<and> c \<le> 57) \<or> c = 45 \<or> c = 43 \<or> c = 40 \<or> c = 41
                        \<or> c = 32) s)"

text \<open>
  A numeric text: decimal digits, at least one, after an optional sign; and the integer
  it denotes.
\<close>

definition numericText :: "jsstring \<Rightarrow> bool" where
  "numericText s =
     (case s of
        [] \<Rightarrow> False
      | c # cs \<Rightarrow> if c = 43 \<or> c = 45 then cs \<noteq> [] \<and> list_all isDigit cs
                  else list_all isDigit s)"

definition integerOf :: "jsstring \<Rightarrow> int" where
  "integerOf s =
     (case s of
        [] \<Rightarrow> 0
      | c # cs \<Rightarrow> if c = 45 then - decimalValue cs
                  else if c = 43 then decimalValue cs
                  else decimalValue s)"

text \<open>The required fields, as the handler's check lists them.\<close>

definition requiredFields :: "(submission \<Rightarrow> jsvalue) list" where
  "requiredFields =
     [body_name, body_email, body_phone, body_address, body_serviceType,
      body_preferredDate, body_preferredTime]"

section \<open>A worked submission\<close>

text \<open>
  The example of the specification: Jo books a driveway for 2025-06-01 at 09:00, on a
  server seven hours west of UTC whose database and mail transport work.
\<close>

definition exampleBody :: submission where
  "exampleBody =
     \<lparr> body_name = Some (js ''Jo''),
       body_email = Some (js ''jo@x.com''),
       body_phone = Some (js ''555-1212''),
       body_address = Some (js ''1 Main St''),
       body_serviceType = Some (js ''Driveway''),
       body_sqft = None,
       body_preferredDate = Some (js ''2025-06-01''),
       body_preferredTime = Some (js ''09:00''),
       body_notes = None,
       body_website = None \<rparr>"

definition exampleEnv :: env where
  "exampleEnv =
     \<lparr> BRAND_NAME_var = None,
       TO_EMAIL = Some (js ''owner@wash.example''),
       FROM_EMAIL = None,
       SMTP_USER = Some (js ''smtp@wash.example''),
       clock = (\<lambda>k. 1748690400000 + int k),
       dateParse = map_of
         [(js ''2025-06-01T09:00:00'', 1748793600000),
          (js ''2025-06-01T16:00:00.000Z'', 1748793600000),
          (js ''2025-06-01T17:00:00.000Z'', 1748797200000),
          (js ''2025-05-31T11:20:00.002Z'', 1748690400002)],
       largeNumberText = (\<lambda>n. []),
       dbRun = (\<lambda>r. True),
       sendMail = (\<lambda>m. True) \<rparr>"

section \<open>What the matcher accepts\<close>

text \<open>
  \<open>test\<close> on a sequence is a split of the string, on a repeated class a condition on every
  character: the two patterns accept exactly the shapes above.
\<close>

lemma test_Empty: "test Empty w = False"
  by (induction w) simp_all

lemma test_Eps: "test Eps w = (w = [])"
  by (cases w) (simp_all add: test_Empty)

lemma test_Class: "test (Class p) w = (\<exists>c. w = [c] \<and> p c)"
  by (cases w) (auto simp: test_Eps test_Empty)

lemma test_Or: "test (Or r s) w = (test r w \<or> test s w)"
  by (induction w arbitrary: r s) simp_all

lemma test_Then: "test (Then r s) w = (\<exists>u v. w = u @ v \<and> test r u \<and> test s v)"
proof (induction w arbitrary: r)
  case Nil
  show ?case by simp
next
  case (Cons c cs)
  have split: "(\<exists>u v. c # cs = u @ v \<and> test r u \<and> test s v) =
      ((nullable r \<and> test s (c # cs)) \<or> (\<exists>u v. cs = u @ v \<and> test r (c # u) \<and> test s v))"
    (is "?L = ?R")
  proof
    assume ?L
    then obtain u v where uv: "c # cs = u @ v" "test r u" "test s v" by blast
    show ?R
    proof (cases u)
      case Nil
      with uv show ?thesis by simp
    next
      case (Cons a u')
      with uv show ?thesis by auto
    qed
  next
    assume ?R
    then show ?L
    proof
      assume "nullable r \<and> test s (c # cs)"
      then have "c # cs = [] @ (c # cs) \<and> test r [] \<and> test s (c # cs)" by simp
      then show ?L by blast
    next
      assume "\<exists>u v. cs = u @ v \<and> test r (c # u) \<and> test s v"
      then obtain u v where "cs = u @ v" "test r (c # u)" "test s v" by blast
      then have "c # cs = (c # u) @ v \<and> test r (c # u) \<and> test s v" by simp
      then show ?L by blast
    qed
  qed
  show ?case
    unfolding split by (auto simp: test_Or Cons.IH)
qed

lemma test_Then_Class: "test (Then (Class p) s) w = (case w of [] \<Rightarrow> False | c # v \<Rightarrow> p c \<and> test s v)"
proof (cases w)
  case Nil
  then show ?thesis by simp
next
  case (Cons c cs)
  have "test (Then (Class p) s) (c # cs) = test (Then (if p c then Eps else Empty) s) cs"
    by simp
  also have "\<dots> = (p c \<and> test s cs)"
    by (simp add: test_Then test_Eps test_Empty)
  finally show ?thesis using Cons by simp
qed

lemma test_Many_Class: "test (Many (Class p)) w = (\<forall>c\<in>set w. p c)"
proof (induction w)
  case Nil
  show ?case by simp
next
  case (Cons c cs)
  have "test (Many (Class p)) (c # cs) = test (Then (if p c then Eps else Empty) (Many (Class p))) cs"
    by simp
  also have "\<dots> = (p c \<and> test (Many (Class p)) cs)"
    by (simp add: test_Then test_Eps test_Empty)
  finally show ?case using Cons.IH by simp
qed

lemma test_OneOrMore_Class: "test (OneOrMore (Class p)) w = (w \<noteq> [] \<and> (\<forall>c\<in>set w. p c))"
  unfolding OneOrMore_def test_Then_Class test_Many_Class
  by (cases w) auto

lemma test_AtLeast_Class: "test (AtLeast n (Class p)) w = (n \<le> length w \<and> (\<forall>c\<in>set w. p c))"
proof (induction n arbitrary: w)
  case 0
  show ?case by (simp add: test_Many_Class)
next
  case (Suc n)
  show ?case
    unfolding AtLeast.simps test_Then_Class Suc.IH
    by (cases w) auto
qed

lemma test_phonePattern: "test phonePattern w = (7 \<le> length w \<and> (\<forall>c\<in>set w. phoneChar c))"
  unfolding phonePattern_def by (rule test_AtLeast_Class)

lemma test_emailPattern:
  "test emailPattern w =
     (\<exists>l a b. w = l @ [64] @ a @ [46] @ b \<and> l \<noteq> [] \<and> a \<noteq> [] \<and> b \<noteq> []
        \<and> (\<forall>c\<in>set l. notSpaceAt c) \<and> (\<forall>c\<in>set a. notSpaceAt c) \<and> (\<forall>c\<in>set b. notSpaceAt c))"
  unfolding emailPattern_def test_Then test_OneOrMore_Class test_Class
  by (auto; blast)

lemma dot_notSpaceAt: "notSpaceAt 46"
  by (simp add: notSpaceAt_def isWhiteSpace_def)

lemma emailShape_accepts:
  assumes "emailShape s"
  shows "test emailPattern s"
proof -
  define l where "l = takeWhile (\<lambda>c. c \<noteq> 64) s"
  define rest where "rest = dropWhile (\<lambda>c. c \<noteq> 64) s"
  from assms have shape:
    "l \<noteq> [] \<and> list_all (\<lambda>c. \<not> isWhiteSpace c) l \<and> rest \<noteq> []
     \<and> list_all (\<lambda>c. \<not> isWhiteSpace c \<and> c \<noteq> 64) (tl rest)
     \<and> 46 \<in> set (butlast (tl (tl rest)))"
    unfolding emailShape_def Let_def l_def rest_def .
  then have l: "l \<noteq> []" "\<forall>c\<in>set l. \<not> isWhiteSpace c"
    and rest: "rest \<noteq> []"
    and dom: "\<forall>c\<in>set (tl rest). notSpaceAt c"
    and dot: "46 \<in> set (butlast (tl (tl rest)))"
    by (simp_all add: list_all_iff notSpaceAt_def)
  have "\<not> (hd rest \<noteq> 64)"
    using rest unfolding rest_def by (rule hd_dropWhile)
  with rest obtain d where rest_eq: "rest = 64 # d"
    by (cases rest) simp_all
  have "s = l @ rest"
    unfolding l_def rest_def by simp
  then have s_eq: "s = l @ 64 # d"
    by (simp only: rest_eq)
  have "\<forall>c\<in>set l. c \<noteq> 64"
    unfolding l_def by (auto dest: set_takeWhileD)
  with l(2) have l_ok: "\<forall>c\<in>set l. notSpaceAt c"
    by (simp add: notSpaceAt_def)
  from dom rest_eq have d_ok: "\<forall>c\<in>set d. notSpaceAt c" by simp
  from dot rest_eq have "46 \<in> set (butlast (tl d))" by simp
  then obtain xs ys where split: "butlast (tl d) = xs @ 46 # ys"
    by (auto dest: split_list)
  then have tl_ne: "tl d \<noteq> []" by auto
  then obtain a0 d' where d_eq: "d = a0 # d'" and d'_ne: "d' \<noteq> []"
    by (cases d) auto
  from d'_ne obtain ys' z where d'_snoc: "d' = ys' @ [z]"
    by (cases d' rule: rev_cases) auto
  from split have "ys' = xs @ 46 # ys"
    unfolding d_eq d'_snoc by simp
  then have d_full: "d = (a0 # xs) @ [46] @ (ys @ [z])"
    unfolding d_eq d'_snoc by simp
  have "\<forall>c\<in>set ((a0 # xs) @ [46] @ (ys @ [z])). notSpaceAt c"
    using d_ok by (simp only: d_full)
  then have parts: "\<forall>c\<in>set (a0 # xs). notSpaceAt c" "\<forall>c\<in>set (ys @ [z]). notSpaceAt c"
    by auto
  have "s = l @ [64] @ (a0 # xs) @ [46] @ (ys @ [z])"
    unfolding s_eq d_full by simp
  moreover have "a0 # xs \<noteq> []" "ys @ [z] \<noteq> []" by simp_all
  ultimately show ?thesis
    unfolding test_emailPattern using l(1) l_ok parts by blast
qed

lemma accepted_emailShape:
  assumes "test emailPattern s"
  shows "emailShape s"
proof -
  from assms obtain l a b where s: "s = l @ [64] @ a @ [46] @ b"
    and ne: "l \<noteq> []" "a \<noteq> []" "b \<noteq> []"
    and ok: "\<forall>c\<in>set l. notSpaceAt c" "\<forall>c\<in>set a. notSpaceAt c" "\<forall>c\<in>set b. notSpaceAt c"
    unfolding test_emailPattern by blast
  have l_at: "\<And>c. c \<in> set l \<Longrightarrow> c \<noteq> 64"
    using ok(1) by (simp add: notSpaceAt_def)
  have tw: "takeWhile (\<lambda>c. c \<noteq> 64) s = l"
    unfolding s using l_at by (simp add: takeWhile_append2)
  have dw: "dropWhile (\<lambda>c. c \<noteq> 64) s = 64 # a @ [46] @ b"
    unfolding s using l_at by (simp add: dropWhile_append2)
  from ne(2) obtain a0 a' where a: "a = a0 # a'" by (cases a) auto
  from ne(3) obtain b' z where b: "b = b' @ [z]" by (cases b rule: rev_cases) auto
  have "butlast (tl (a @ [46] @ b)) = a' @ [46] @ b'"
    unfolding a b by (simp add: butlast_append)
  then have dot: "46 \<in> set (butlast (tl (a @ [46] @ b)))" by simp
  have dom: "\<forall>c\<in>set (a @ [46] @ b). notSpaceAt c"
    using ok(2,3) dot_notSpaceAt by auto
  then have dom': "list_all (\<lambda>c. \<not> isWhiteSpace c \<and> c \<noteq> 64) (a @ [46] @ b)"
    unfolding list_all_iff notSpaceAt_def .
  have l_ok: "list_all (\<lambda>c. \<not> isWhiteSpace c) l"
    using ok(1) by (simp add: list_all_iff notSpaceAt_def)
  have "l \<noteq> [] \<and> list_all (\<lambda>c. \<not> isWhiteSpace c) l \<and> (64 # a @ [46] @ b) \<noteq> []
     \<and> list_all (\<lambda>c. \<not> isWhiteSpace c \<and> c \<noteq> 64) (tl (64 # a @ [46] @ b))
     \<and> 46 \<in> set (butlast (tl (tl (64 # a @ [46] @ b))))"
    using ne(1) l_ok dom' dot by simp
  then show ?thesis
    unfolding emailShape_def Let_def tw dw .
qed

lemma isEmail_emailShape: "isEmail (Some s) = emailShape s"
  using emailShape_accepts accepted_emailShape by (auto simp: isEmail_def ToString_def)

lemma isPhone_phoneShape: "isPhone (Some s) = phoneShape s"
  by (simp add: isPhone_def ToString_def test_phonePattern phoneShape_def list_all_iff
      phoneChar_def isDigit_def)

lemma plainPhoneShape_phoneShape: "plainPhoneShape s \<Longrightarrow> phoneShape s"
  unfolding plainPhoneShape_def phoneShape_def list_all_iff
  by (auto simp: isWhiteSpace_def)

section \<open>The branches of the handler\<close>

lemma trim_Nil: "trim [] = []"
  by (simp add: trim_def)

lemma honeypot_iff:
  "honeypot b = (\<exists>w. body_website b = Some w \<and> trim w \<noteq> [])"
  by (cases "body_website b") (auto simp: honeypot_def falsy_def ToString_def trim_Nil)

lemma missingRequired_iff:
  "missingRequired b = (\<exists>f\<in>set requiredFields. f b = None \<or> f b = Some [])"
  by (auto simp: missingRequired_def requiredFields_def falsy_def split: option.splits)

lemma post_honeypot:
  "honeypot b \<Longrightarrow> postBookings e b = (Response 200 True (js ''Thanks!''), [])"
  by (simp add: postBookings_def)

lemma post_missing:
  "\<not> honeypot b \<Longrightarrow> missingRequired b \<Longrightarrow>
   postBookings e b = (Response 400 False (js ''Missing required fields.''), [])"
  by (simp add: postBookings_def)

lemma post_bad_email:
  "\<not> honeypot b \<Longrightarrow> \<not> missingRequired b \<Longrightarrow> \<not> isEmail (body_email b) \<Longrightarrow>
   postBookings e b = (Response 400 False (js ''Invalid email address.''), [])"
  by (simp add: postBookings_def)

lemma post_bad_phone:
  "\<not> honeypot b \<Longrightarrow> \<not> missingRequired b \<Longrightarrow> isEmail (body_email b) \<Longrightarrow>
   \<not> isPhone (body_phone b) \<Longrightarrow>
   postBookings e b = (Response 400 False (js ''Invalid phone number.''), [])"
  by (simp add: postBookings_def)

lemma post_db_down:
  "accepted b \<Longrightarrow> \<not> dbRun e (insertParams (sanitize b) (isoOfTime (clock e 0))) \<Longrightarrow>
   postBookings e b =
     (serverError, [DbInsert (insertParams (sanitize b) (isoOfTime (clock e 0))) False])"
  by (simp add: postBookings_def accepted_def)

lemma post_no_calendar:
  "accepted b \<Longrightarrow> dbRun e (insertParams (sanitize b) (isoOfTime (clock e 0))) \<Longrightarrow>
   calendarPayload e (sanitize b) = Inl err \<Longrightarrow>
   postBookings e b =
     (serverError, [DbInsert (insertParams (sanitize b) (isoOfTime (clock e 0))) True])"
  by (simp add: postBookings_def accepted_def)

lemma post_notify:
  "accepted b \<Longrightarrow> dbRun e (insertParams (sanitize b) (isoOfTime (clock e 0))) \<Longrightarrow>
   calendarPayload e (sanitize b) = Inr ics \<Longrightarrow>
   postBookings e b =
     (fst (notify e (sanitize b) ics),
      DbInsert (insertParams (sanitize b) (isoOfTime (clock e 0))) True
        # snd (notify e (sanitize b) ics))"
  by (simp add: postBookings_def accepted_def Let_def)

lemma postBookings_website:
  assumes "\<not> honeypot b" and "\<not> honeypot (b\<lparr>body_website := w\<rparr>)"
  shows "postBookings e (b\<lparr>body_website := w\<rparr>) = postBookings e b"
proof -
  have "missingRequired (b\<lparr>body_website := w\<rparr>) = missingRequired b"
    by (simp add: missingRequired_def)
  moreover have "sanitize (b\<lparr>body_website := w\<rparr>) = sanitize b"
    by (simp add: sanitize_def)
  ultimately show ?thesis
    using assms by (simp add: postBookings_def)
qed

lemma persisted_append: "persisted (xs @ ys) = persisted xs @ persisted ys"
  by (induction xs rule: persisted.induct) simp_all

lemma persisted_notify: "persisted (snd (notify e c ics)) = []"
  by (simp add: notify_def confirmCustomer_def)

lemma persisted_accepted:
  assumes "accepted b" and "dbRun e (insertParams (sanitize b) (isoOfTime (clock e 0)))"
  shows "persisted (snd (postBookings e b)) = [insertParams (sanitize b) (isoOfTime (clock e 0))]"
proof (cases "calendarPayload e (sanitize b)")
  case (Inl err)
  with assms show ?thesis by (simp add: post_no_calendar)
next
  case (Inr ics)
  with assms show ?thesis by (simp add: post_notify persisted_notify)
qed

lemma persisted_cases:
  "persisted (snd (postBookings e b)) = [] \<or>
   (accepted b \<and> dbRun e (insertParams (sanitize b) (isoOfTime (clock e 0))) \<and>
    persisted (snd (postBookings e b)) = [insertParams (sanitize b) (isoOfTime (clock e 0))])"
proof (cases "accepted b \<and> dbRun e (insertParams (sanitize b) (isoOfTime (clock e 0)))")
  case True
  then show ?thesis by (simp add: persisted_accepted)
next
  case False
  then have "persisted (snd (postBookings e b)) = []"
    by (auto simp: postBookings_def accepted_def Let_def)
  then show ?thesis by simp
qed

lemma notify_events:
  "\<forall>ev\<in>set (snd (notify e c ics)). \<exists>m ok. ev = SendMail m ok"
  by (auto simp: notify_def confirmCustomer_def)

lemma notify_response:
  "fst (notify e c ics) =
     (if \<exists>m. SendMail m False \<in> set (snd (notify e c ics)) then serverError else bookingReceived)"
  by (auto simp: notify_def confirmCustomer_def)

lemma events_cases:
  "snd (postBookings e b) = [] \<or>
   (\<exists>r ok. snd (postBookings e b) = [DbInsert r ok]) \<or>
   (\<exists>r ics. snd (postBookings e b) = DbInsert r True # snd (notify e (sanitize b) ics))"
  by (auto simp: postBookings_def Let_def split: sum.splits)

section \<open>The calendar payload, case by case\<close>

lemma toICSDate_alt:
  "toICSDate e s =
     (case newDate e s of None \<Rightarrow> Inl RangeError | Some t \<Rightarrow> Inr (compactStamp (isoOfTime t)))"
  by (cases "newDate e s") (simp_all add: toICSDate_def toISOString_def)

lemma buildICS_Inr:
  "buildICS e summary description startISO endISO = Inr ics \<longleftrightarrow>
     (\<exists>t0 t1 t2. newDate e (isoOfTime (clock e 2)) = Some t0
        \<and> newDate e startISO = Some t1 \<and> newDate e endISO = Some t2
        \<and> ics = join [13, 10]
            (icsLines (js ''booking-'' @ NumberToString e (clock e 1) @ js ''@pressurewash'')
               (compactStamp (isoOfTime t0)) (compactStamp (isoOfTime t1))
               (compactStamp (isoOfTime t2)) summary description))"
  unfolding buildICS_def Let_def toICSDate_alt
  by (auto split: option.splits)

lemma appointmentEnd_Some:
  "appointmentEnd e c = Some u \<Longrightarrow> \<exists>t. appointmentStart e c = Some t \<and> u = t + 3600 * 1000"
  by (cases "appointmentStart e c") (auto simp: appointmentEnd_def TimeClip_def split: if_splits)

lemma calendarPayload_Inr:
  "calendarPayload e c = Inr ics \<longleftrightarrow>
     (\<exists>t t0 t1 t2. appointmentStart e c = Some t \<and> appointmentEnd e c = Some (t + 3600 * 1000)
        \<and> newDate e (isoOfTime (clock e 2)) = Some t0
        \<and> newDate e (isoOfTime t) = Some t1
        \<and> newDate e (isoOfTime (t + 3600 * 1000)) = Some t2
        \<and> ics = join [13, 10]
            (icsLines (js ''booking-'' @ NumberToString e (clock e 1) @ js ''@pressurewash'')
               (compactStamp (isoOfTime t0)) (compactStamp (isoOfTime t1))
               (compactStamp (isoOfTime t2)) (summaryOf e c) (descriptionOf e c)))"
  (is "?L = ?R")
proof
  assume ?L
  then obtain startISO endISO where
    s: "toISOString (appointmentStart e c) = Inr startISO"
    and en: "toISOString (appointmentEnd e c) = Inr endISO"
    and b: "buildICS e (summaryOf e c) (descriptionOf e c) startISO endISO = Inr ics"
    by (auto simp: calendarPayload_def split: sum.splits)
  from s obtain t where t: "appointmentStart e c = Some t" "startISO = isoOfTime t"
    by (cases "appointmentStart e c") (auto simp: toISOString_def)
  from en obtain u where u: "appointmentEnd e c = Some u" "endISO = isoOfTime u"
    by (cases "appointmentEnd e c") (auto simp: toISOString_def)
  from appointmentEnd_Some [OF u(1)] t(1) have "u = t + 3600 * 1000" by auto
  with t u b show ?R by (auto simp: buildICS_Inr)
next
  assume ?R
  then show ?L
    by (auto simp: calendarPayload_def toISOString_def buildICS_Inr)
qed

lemma calendarPayload_env:
  assumes "clock e' = clock e" and "dateParse e' = dateParse e"
    and "largeNumberText e' = largeNumberText e" and "BRAND_NAME_var e' = BRAND_NAME_var e"
  shows "calendarPayload e' c = calendarPayload e c"
  unfolding calendarPayload_def appointmentStart_def appointmentEnd_def newDate_def
    buildICS_def toICSDate_def summaryOf_def descriptionOf_def BRAND_NAME_def
    NumberToString_def assms ..

lemma calendarPayload_sendMail:
  "calendarPayload (e\<lparr>sendMail := f\<rparr>) c = calendarPayload e c"
  by (rule calendarPayload_env) simp_all

section \<open>What the integer coercion reads\<close>

lemma digit_not_space: "isDigit c \<Longrightarrow> \<not> isWhiteSpace c"
  unfolding isDigit_def isWhiteSpace_def
  by (auto simp: word_le_def word_less_def)

lemma digit_not_sign: "isDigit c \<Longrightarrow> c \<noteq> 43 \<and> c \<noteq> 45"
  unfolding isDigit_def by auto

lemma sign_not_space: "\<not> isWhiteSpace 43" "\<not> isWhiteSpace 45"
  by (simp_all add: isWhiteSpace_def)

lemma sign_not_digit: "\<not> isDigit 43" "\<not> isDigit 45"
  by (simp_all add: isDigit_def)

lemma takeWhile_digits:
  assumes "\<forall>c\<in>set ds. isDigit c" and "rest = [] \<or> \<not> isDigit (hd rest)"
  shows "takeWhile isDigit (ds @ rest) = ds"
proof -
  from assms(2) have "takeWhile isDigit rest = []" by (cases rest) auto
  with assms(1) show ?thesis by (simp add: takeWhile_append2)
qed

lemma dropWhile_spaces:
  assumes "\<forall>c\<in>set ws. isWhiteSpace c" and "\<not> isWhiteSpace x"
  shows "dropWhile isWhiteSpace (ws @ x # xs) = x # xs"
  using assms by (simp add: dropWhile_append2)

lemma parseInt_unsigned:
  assumes "\<forall>c\<in>set ws. isWhiteSpace c" and "ds \<noteq> []" and "\<forall>c\<in>set ds. isDigit c"
    and "rest = [] \<or> \<not> isDigit (hd rest)"
  shows "parseInt (Some (ws @ ds @ rest)) =
     (case roundToDouble (decimalValue ds) of None \<Rightarrow> PosInfinity | Some m \<Rightarrow> Finite m)"
proof -
  from assms(2) obtain d ds' where ds: "ds = d # ds'" by (cases ds) auto
  with assms(3) have d: "isDigit d" by simp
  have drop: "dropWhile isWhiteSpace (ws @ ds @ rest) = d # ds' @ rest"
    using dropWhile_spaces [OF assms(1) digit_not_space [OF d], of "ds' @ rest"]
    by (simp add: ds)
  have take: "takeWhile isDigit (d # ds' @ rest) = ds"
    using takeWhile_digits [OF assms(3,4)] by (simp add: ds)
  show ?thesis
    unfolding parseInt_def ToString_def option.case drop Let_def
    using digit_not_sign [OF d] take assms(2) by (auto split: option.splits)
qed

lemma parseInt_signed:
  assumes "\<forall>c\<in>set ws. isWhiteSpace c" and "sg = 43 \<or> sg = 45"
    and "ds \<noteq> []" and "\<forall>c\<in>set ds. isDigit c"
    and "rest = [] \<or> \<not> isDigit (hd rest)"
  shows "parseInt (Some (ws @ sg # ds @ rest)) =
     (case roundToDouble (decimalValue ds) of
        None \<Rightarrow> (if sg = 45 then NegInfinity else PosInfinity)
      | Some m \<Rightarrow> Finite (if sg = 45 then - m else m))"
proof -
  from assms(2) have "\<not> isWhiteSpace sg" using sign_not_space by auto
  then have drop: "dropWhile isWhiteSpace (ws @ sg # ds @ rest) = sg # ds @ rest"
    by (rule dropWhile_spaces [OF assms(1)])
  have take: "takeWhile isDigit (ds @ rest) = ds"
    by (rule takeWhile_digits [OF assms(4,5)])
  show ?thesis
    unfolding parseInt_def ToString_def option.case drop Let_def
    using assms(2,3) take by (auto split: option.splits)
qed

lemma roundToDouble_exact: "n < 2 ^ 53 \<Longrightarrow> roundToDouble n = Some n"
  by (simp add: roundToDouble_def)

lemma numericText_cases:
  assumes "numericText s"
  obtains (unsigned) "s \<noteq> []" "\<forall>c\<in>set s. isDigit c" "integerOf s = decimalValue s"
  | (signed) sg ds where "s = sg # ds" "sg = 43 \<or> sg = 45" "ds \<noteq> []" "\<forall>c\<in>set ds. isDigit c"
      "integerOf s = (if sg = 45 then - decimalValue ds else decimalValue ds)"
proof (cases s)
  case Nil
  with assms show ?thesis by (simp add: numericText_def)
next
  case (Cons c cs)
  show ?thesis
  proof (cases "c = 43 \<or> c = 45")
    case True
    with assms Cons have "cs \<noteq> []" "\<forall>x\<in>set cs. isDigit x"
      by (auto simp: numericText_def list_all_iff)
    moreover from True Cons have "integerOf s = (if c = 45 then - decimalValue cs else decimalValue cs)"
      by (auto simp: integerOf_def)
    ultimately show ?thesis using signed [of c cs] Cons True by blast
  next
    case False
    with assms Cons have "\<forall>x\<in>set s. isDigit x"
      by (auto simp: numericText_def list_all_iff)
    moreover from False Cons have "integerOf s = decimalValue s"
      by (auto simp: integerOf_def)
    ultimately show ?thesis using unsigned Cons by blast
  qed
qed

lemma decimalValue_nonneg_aux: "0 \<le> a \<Longrightarrow> \<forall>c\<in>set ds. isDigit c \<Longrightarrow>
    0 \<le> foldl (\<lambda>a c. 10 * a + digitValue c) a ds"
proof (induction ds arbitrary: a)
  case Nil
  then show ?case by simp
next
  case (Cons d ds)
  from Cons.prems(2) have "isDigit d" by simp
  then have "48 \<le> uint d"
    unfolding isDigit_def by (simp add: word_le_def)
  then have "0 \<le> 10 * a + digitValue d"
    using Cons.prems(1) by (simp add: digitValue_def)
  with Cons show ?case by simp
qed

lemma decimalValue_nonneg: "\<forall>c\<in>set ds. isDigit c \<Longrightarrow> 0 \<le> decimalValue ds"
  unfolding decimalValue_def by (rule decimalValue_nonneg_aux) simp_all

lemma toInt_numeric:
  assumes "numericText s" and "\<forall>c\<in>set ws. isWhiteSpace c"
    and "rest = [] \<or> \<not> isDigit (hd rest)"
  shows "toInt (Some (ws @ s @ rest)) =
     (if \<bar>integerOf s\<bar> < 2 ^ 53 then Some (integerOf s) else toInt (Some s))"
  using assms(1)
proof (cases rule: numericText_cases)
  case unsigned
  have general: "\<And>ws' rest'. \<forall>c\<in>set ws'. isWhiteSpace c \<Longrightarrow> rest' = [] \<or> \<not> isDigit (hd rest') \<Longrightarrow>
      toInt (Some (ws' @ s @ rest')) =
      (case roundToDouble (decimalValue s) of None \<Rightarrow> None | Some m \<Rightarrow> Some m)"
    using unsigned by (simp add: toInt_def parseInt_unsigned split: option.splits)
  have here: "toInt (Some (ws @ s @ rest)) =
      (case roundToDouble (decimalValue s) of None \<Rightarrow> None | Some m \<Rightarrow> Some m)"
    by (rule general [OF assms(2,3)])
  have alone: "toInt (Some s) =
      (case roundToDouble (decimalValue s) of None \<Rightarrow> None | Some m \<Rightarrow> Some m)"
    using general [of "[]" "[]"] by simp
  from decimalValue_nonneg [OF unsigned(2)] have "\<bar>integerOf s\<bar> = decimalValue s"
    by (simp add: unsigned(3))
  then show ?thesis
    unfolding here alone by (auto simp: roundToDouble_exact unsigned(3))
next
  case (signed sg ds)
  have general: "\<And>ws' rest'. \<forall>c\<in>set ws'. isWhiteSpace c \<Longrightarrow> rest' = [] \<or> \<not> isDigit (hd rest') \<Longrightarrow>
      toInt (Some (ws' @ s @ rest')) =
      (case roundToDouble (decimalValue ds) of None \<Rightarrow> None
       | Some m \<Rightarrow> Some (if sg = 45 then - m else m))"
    using signed(2-4) unfolding signed(1)
    by (simp add: toInt_def parseInt_signed split: option.splits)
  have here: "toInt (Some (ws @ s @ rest)) =
      (case roundToDouble (decimalValue ds) of None \<Rightarrow> None
       | Some m \<Rightarrow> Some (if sg = 45 then - m else m))"
    by (rule general [OF assms(2,3)])
  have alone: "toInt (Some s) =
      (case roundToDouble (decimalValue ds) of None \<Rightarrow> None
       | Some m \<Rightarrow> Some (if sg = 45 then - m else m))"
    using general [of "[]" "[]"] by simp
  from decimalValue_nonneg [OF signed(4)] have "\<bar>integerOf s\<bar> = decimalValue ds"
    by (simp add: signed(5))
  then show ?thesis
    unfolding here alone by (auto simp: roundToDouble_exact signed(5))
qed

lemma toInt_no_digits:
  assumes "let s' = dropWhile isWhiteSpace s;
               d = (if s' \<noteq> [] \<and> (hd s' = 43 \<or> hd s' = 45) then tl s' else s')
           in d = [] \<or> \<not> isDigit (hd d)"
  shows "toInt (Some s) = None"
proof -
  define d where "d = (if dropWhile isWhiteSpace s \<noteq> [] \<and>
      (hd (dropWhile isWhiteSpace s) = 43 \<or> hd (dropWhile isWhiteSpace s) = 45)
      then tl (dropWhile isWhiteSpace s) else dropWhile isWhiteSpace s)"
  from assms have "d = [] \<or> \<not> isDigit (hd d)"
    unfolding Let_def d_def .
  then have "takeWhile isDigit d = []" by (cases d) auto
  then show ?thesis
    unfolding toInt_def parseInt_def ToString_def option.case Let_def d_def by simp
qed

lemma toInt_None: "toInt None = None"
  by code_simp

lemma example_numeric: "numericText (js ''1200'')" by code_simp

lemma example_integer: "integerOf (js ''1200'') = 1200" by code_simp

lemma example_suffix: "\<not> isDigit (hd (js '' sqft''))" by code_simp

lemma example_no_digits: "let s' = dropWhile isWhiteSpace (js ''n/a'');
            d = (if s' \<noteq> [] \<and> (hd s' = 43 \<or> hd s' = 45) then tl s' else s')
        in d = [] \<or> \<not> isDigit (hd d)" by code_simp

section \<open>The worked submission, step by step\<close>

lemma example_accepted: "accepted exampleBody"
  by code_simp

lemma example_blank_name_accepted: "accepted (exampleBody\<lparr>body_name := Some (js ''   '')\<rparr>)"
  by code_simp

lemma example_blank_phone_accepted:
  "accepted (exampleBody\<lparr>body_phone := Some (js ''       '')\<rparr>)"
  by code_simp

lemma example_dbRun: "dbRun exampleEnv r"
  by (simp add: exampleEnv_def)

lemma example_clean_email: "isEmail (Some (clean_email (sanitize exampleBody)))"
  by code_simp

lemma example_start: "appointmentStart exampleEnv (sanitize exampleBody) = Some 1748793600000"
  by code_simp

lemma example_stamp_parsed: "newDate exampleEnv (isoOfTime (clock exampleEnv 2)) = Some 1748690400002"
  by code_simp

lemma example_start_parsed: "newDate exampleEnv (isoOfTime 1748793600000) = Some 1748793600000"
  by code_simp

lemma example_end_parsed: "newDate exampleEnv (isoOfTime (1748793600000 + 3600 * 1000)) = Some (1748793600000 + 3600 * 1000)"
  by code_simp

lemma example_start_stamp: "compactStamp (isoOfTime 1748793600000) = js ''20250601T160000Z''"
  by code_simp

lemma example_end_stamp: "compactStamp (isoOfTime (1748793600000 + 3600 * 1000)) = js ''20250601T170000Z''"
  by code_simp

lemma example_calendar:
  "\<exists>ics. calendarPayload exampleEnv (sanitize exampleBody) = Inr ics"
proof -
  have "appointmentEnd exampleEnv (sanitize exampleBody) = Some (1748793600000 + 3600 * 1000)"
    by (simp add: appointmentEnd_def example_start TimeClip_def)
  with example_start example_stamp_parsed example_start_parsed example_end_parsed show ?thesis
    unfolding calendarPayload_Inr by blast
qed

lemma example_run:
  "\<exists>ics. postBookings exampleEnv exampleBody =
     (bookingReceived,
      [DbInsert (insertParams (sanitize exampleBody) (isoOfTime (clock exampleEnv 0))) True,
       SendMail (ownerMail exampleEnv (sanitize exampleBody) ics) True,
       SendMail (customerMail exampleEnv (sanitize exampleBody) ics) True])"
proof -
  from example_calendar obtain ics where
    ics: "calendarPayload exampleEnv (sanitize exampleBody) = Inr ics" ..
  have "notify exampleEnv (sanitize exampleBody) ics =
     (bookingReceived,
      [SendMail (ownerMail exampleEnv (sanitize exampleBody) ics) True,
       SendMail (customerMail exampleEnv (sanitize exampleBody) ics) True])"
    unfolding notify_def confirmCustomer_def
    using example_clean_email by (simp add: exampleEnv_def falsy_def js_def)
  then have "postBookings exampleEnv exampleBody =
     (bookingReceived,
      [DbInsert (insertParams (sanitize exampleBody) (isoOfTime (clock exampleEnv 0))) True,
       SendMail (ownerMail exampleEnv (sanitize exampleBody) ics) True,
       SendMail (customerMail exampleEnv (sanitize exampleBody) ics) True])"
    by (simp add: post_notify [OF example_accepted example_dbRun ics])
  then show ?thesis ..
qed

lemma example_run_mail_down:
  "\<exists>ics. postBookings (exampleEnv\<lparr>sendMail := \<lambda>m. False\<rparr>) exampleBody =
     (serverError,
      [DbInsert (insertParams (sanitize exampleBody) (isoOfTime (clock exampleEnv 0))) True,
       SendMail (ownerMail (exampleEnv\<lparr>sendMail := \<lambda>m. False\<rparr>) (sanitize exampleBody) ics) False])"
proof -
  from example_calendar obtain ics where
    "calendarPayload exampleEnv (sanitize exampleBody) = Inr ics" ..
  then have ics: "calendarPayload (exampleEnv\<lparr>sendMail := \<lambda>m. False\<rparr>) (sanitize exampleBody) = Inr ics"
    by (simp add: calendarPayload_sendMail)
  have db: "dbRun (exampleEnv\<lparr>sendMail := \<lambda>m. False\<rparr>)
       (insertParams (sanitize exampleBody) (isoOfTime (clock (exampleEnv\<lparr>sendMail := \<lambda>m. False\<rparr>) 0)))"
    by (simp add: exampleEnv_def)
  have "notify (exampleEnv\<lparr>sendMail := \<lambda>m. False\<rparr>) (sanitize exampleBody) ics =
     (serverError,
      [SendMail (ownerMail (exampleEnv\<lparr>sendMail := \<lambda>m. False\<rparr>) (sanitize exampleBody) ics) False])"
    unfolding notify_def by (simp add: exampleEnv_def falsy_def js_def)
  then have "postBookings (exampleEnv\<lparr>sendMail := \<lambda>m. False\<rparr>) exampleBody =
     (serverError,
      [DbInsert (insertParams (sanitize exampleBody) (isoOfTime (clock exampleEnv 0))) True,
       SendMail (ownerMail (exampleEnv\<lparr>sendMail := \<lambda>m. False\<rparr>) (sanitize exampleBody) ics) False])"
    by (simp add: post_notify [OF example_accepted db ics])
  then show ?thesis ..
qed

section \<open>Required fields\<close>

text \<open>
  Claim C1, as the handler has it. When the honeypot field is left out or is blank after
  trimming, and one of the seven required fields (name, email, phone, address,
  serviceType, preferredDate, preferredTime) is left out or is the empty string, the
  response is status 400 with the error \<^verbatim>\<open>Missing required fields.\<close>, no row is inserted
  and no message is sent.
\<close>

theorem missing_required_field_rejected:
  assumes "body_website b = None \<or> (\<exists>w. body_website b = Some w \<and> trim w = [])"
      and "f \<in> set requiredFields"
      and "f b = None \<or> f b = Some []"
  shows "postBookings e b = (Response 400 False (js ''Missing required fields.''), [])
         \<and> persisted (snd (postBookings e b)) = []
         \<and> attempted (snd (postBookings e b)) = []"
proof -
  from assms(1) have "\<not> honeypot b" by (auto simp: honeypot_iff)
  moreover from assms(2,3) have "missingRequired b" by (auto simp: missingRequired_iff)
  ultimately show ?thesis by (simp add: post_missing)
qed

theorem missing_required_field_rejected_witness:
  "postBookings exampleEnv (exampleBody\<lparr>body_address := Some []\<rparr>)
     = (Response 400 False (js ''Missing required fields.''), [])
   \<and> persisted (snd (postBookings exampleEnv (exampleBody\<lparr>body_address := Some []\<rparr>))) = []
   \<and> attempted (snd (postBookings exampleEnv (exampleBody\<lparr>body_address := Some []\<rparr>))) = []"
  using missing_required_field_rejected
    [of "exampleBody\<lparr>body_address := Some []\<rparr>" body_address exampleEnv]
  by (simp add: exampleBody_def requiredFields_def)

text \<open>
  Claim C1 as stated fails twice. A submission without a name whose honeypot field is
  filled gets the status 200 and \<^verbatim>\<open>Thanks!\<close>, not a validation failure. And a name of three
  spaces, empty after trimming, passes the check (the handler tests \<^verbatim>\<open>!name\<close> on the raw
  value and trims afterwards): the row is inserted, its name empty.
\<close>

theorem missing_field_not_always_rejected:
  "postBookings exampleEnv
     (exampleBody\<lparr>body_name := None, body_website := Some (js ''http://spam.biz'')\<rparr>)
     = (Response 200 True (js ''Thanks!''), [])
   \<and> trim (js ''   '') = []
   \<and> map clean_name
       (persisted (snd (postBookings exampleEnv (exampleBody\<lparr>body_name := Some (js ''   '')\<rparr>))))
     = [[]]"
proof -
  have "honeypot (exampleBody\<lparr>body_name := None, body_website := Some (js ''http://spam.biz'')\<rparr>)"
    by code_simp
  then have first: "postBookings exampleEnv
     (exampleBody\<lparr>body_name := None, body_website := Some (js ''http://spam.biz'')\<rparr>)
     = (Response 200 True (js ''Thanks!''), [])"
    by (rule post_honeypot)
  have second: "trim (js ''   '') = []" by code_simp
  have "sanitizeSmallText (Some (js ''   '')) = []" by code_simp
  then have third: "map clean_name
       (persisted (snd (postBookings exampleEnv (exampleBody\<lparr>body_name := Some (js ''   '')\<rparr>))))
     = [[]]"
    by (simp add: persisted_accepted [OF example_blank_name_accepted example_dbRun]
        insertParams_def sanitize_def)
  from first second third show ?thesis by simp
qed

section \<open>Email failures after persistence\<close>

text \<open>
  Claim C2, as the handler has it. Once the row of a submission is inserted, the response
  is \<^verbatim>\<open>Booking received.\<close> exactly when the calendar payload is built and no attempted
  send is rejected; a rejected send, like an appointment date that cannot be printed,
  ends in the status 500 \<^verbatim>\<open>Server error.\<close>, and the row stays inserted either way.
\<close>

theorem response_after_persisting:
  assumes "persisted (snd (postBookings e b)) \<noteq> []"
  shows "persisted (snd (postBookings e b)) = [insertParams (sanitize b) (isoOfTime (clock e 0))]
         \<and> fst (postBookings e b) =
             (if (\<exists>err. calendarPayload e (sanitize b) = Inl err)
                 \<or> (\<exists>m. SendMail m False \<in> set (snd (postBookings e b)))
              then serverError else bookingReceived)"
proof -
  from assms persisted_cases [of e b] have acc: "accepted b"
    and db: "dbRun e (insertParams (sanitize b) (isoOfTime (clock e 0)))"
    and rows: "persisted (snd (postBookings e b)) = [insertParams (sanitize b) (isoOfTime (clock e 0))]"
    by auto
  show ?thesis
  proof (cases "calendarPayload e (sanitize b)")
    case (Inl err)
    with acc db rows show ?thesis by (simp add: post_no_calendar)
  next
    case (Inr ics)
    with acc db rows notify_response [of e "sanitize b" ics] show ?thesis
      by (simp add: post_notify)
  qed
qed

theorem response_after_persisting_witness:
  "persisted (snd (postBookings exampleEnv exampleBody)) \<noteq> []
   \<and> fst (postBookings exampleEnv exampleBody) = Response 200 True (js ''Booking received.'')"
proof -
  from example_run obtain ics where run: "postBookings exampleEnv exampleBody =
     (bookingReceived,
      [DbInsert (insertParams (sanitize exampleBody) (isoOfTime (clock exampleEnv 0))) True,
       SendMail (ownerMail exampleEnv (sanitize exampleBody) ics) True,
       SendMail (customerMail exampleEnv (sanitize exampleBody) ics) True])" ..
  then have rows: "persisted (snd (postBookings exampleEnv exampleBody)) \<noteq> []" by simp
  from response_after_persisting [OF rows] run show ?thesis
    by (simp add: bookingReceived_def)
qed

text \<open>
  Claim C2 as stated fails: with a mail transport that rejects every message the worked
  submission is inserted and answered with the status 500, where a working transport
  gives the status 200.
\<close>

theorem failed_send_changes_response:
  "fst (postBookings (exampleEnv\<lparr>sendMail := \<lambda>m. False\<rparr>) exampleBody)
     = Response 500 False (js ''Server error.'')
   \<and> persisted (snd (postBookings (exampleEnv\<lparr>sendMail := \<lambda>m. False\<rparr>) exampleBody))
     = [insertParams (sanitize exampleBody) (isoOfTime (clock exampleEnv 0))]
   \<and> fst (postBookings exampleEnv exampleBody) = Response 200 True (js ''Booking received.'')"
proof -
  from example_run_mail_down obtain ics where
    "postBookings (exampleEnv\<lparr>sendMail := \<lambda>m. False\<rparr>) exampleBody =
     (serverError,
      [DbInsert (insertParams (sanitize exampleBody) (isoOfTime (clock exampleEnv 0))) True,
       SendMail (ownerMail (exampleEnv\<lparr>sendMail := \<lambda>m. False\<rparr>) (sanitize exampleBody) ics) False])" ..
  moreover from example_run obtain ics' where "postBookings exampleEnv exampleBody =
     (bookingReceived,
      [DbInsert (insertParams (sanitize exampleBody) (isoOfTime (clock exampleEnv 0))) True,
       SendMail (ownerMail exampleEnv (sanitize exampleBody) ics') True,
       SendMail (customerMail exampleEnv (sanitize exampleBody) ics') True])" ..
  ultimately show ?thesis
    by (simp add: serverError_def bookingReceived_def)
qed

section \<open>The honeypot\<close>

text \<open>
  Claim C3, as the handler has it. When the honeypot field is not empty after trimming,
  the response is the status 200 with \<^verbatim>\<open>Thanks!\<close>, no row is inserted and no message is
  sent.
\<close>

theorem filled_honeypot_short_circuits:
  assumes "body_website b = Some w" and "trim w \<noteq> []"
  shows "postBookings e b = (Response 200 True (js ''Thanks!''), [])
         \<and> persisted (snd (postBookings e b)) = []
         \<and> attempted (snd (postBookings e b)) = []"
proof -
  from assms have "honeypot b" by (simp add: honeypot_iff)
  then show ?thesis by (simp add: post_honeypot)
qed

theorem filled_honeypot_short_circuits_witness:
  "postBookings exampleEnv (exampleBody\<lparr>body_website := Some (js ''http://spam.biz'')\<rparr>)
     = (Response 200 True (js ''Thanks!''), [])
   \<and> persisted (snd (postBookings exampleEnv
        (exampleBody\<lparr>body_website := Some (js ''http://spam.biz'')\<rparr>))) = []
   \<and> attempted (snd (postBookings exampleEnv
        (exampleBody\<lparr>body_website := Some (js ''http://spam.biz'')\<rparr>))) = []"
proof -
  have "trim (js ''http://spam.biz'') \<noteq> []" by code_simp
  with filled_honeypot_short_circuits
    [of "exampleBody\<lparr>body_website := Some (js ''http://spam.biz'')\<rparr>" "js ''http://spam.biz''"
        exampleEnv]
  show ?thesis by simp
qed

text \<open>
  Claim C3 as stated fails for a honeypot field that is not empty but blank: with a
  single space in it the worked submission is processed in full, one row inserted and
  two messages sent.
\<close>

theorem blank_honeypot_processed:
  "js '' '' \<noteq> []
   \<and> fst (postBookings exampleEnv (exampleBody\<lparr>body_website := Some (js '' '')\<rparr>))
       = Response 200 True (js ''Booking received.'')
   \<and> length (persisted (snd (postBookings exampleEnv
        (exampleBody\<lparr>body_website := Some (js '' '')\<rparr>)))) = 1
   \<and> length (attempted (snd (postBookings exampleEnv
        (exampleBody\<lparr>body_website := Some (js '' '')\<rparr>)))) = 2"
proof -
  have "\<not> honeypot exampleBody" using example_accepted by (simp add: accepted_def)
  moreover have "\<not> honeypot (exampleBody\<lparr>body_website := Some (js '' '')\<rparr>)" by code_simp
  ultimately have same: "postBookings exampleEnv (exampleBody\<lparr>body_website := Some (js '' '')\<rparr>)
      = postBookings exampleEnv exampleBody"
    by (rule postBookings_website)
  from example_run obtain ics where "postBookings exampleEnv exampleBody =
     (bookingReceived,
      [DbInsert (insertParams (sanitize exampleBody) (isoOfTime (clock exampleEnv 0))) True,
       SendMail (ownerMail exampleEnv (sanitize exampleBody) ics) True,
       SendMail (customerMail exampleEnv (sanitize exampleBody) ics) True])" ..
  then show ?thesis
    unfolding same by (simp add: bookingReceived_def js_def)
qed

section \<open>Persistence before notification\<close>

text \<open>
  Claim C4. In every run of the handler a send is preceded by an INSERT that succeeded;
  and when the INSERT is rejected no message is sent and the response is the status 500
  \<^verbatim>\<open>Server error.\<close>: for a submission that passes validation the rejected INSERT is all
  the run does.
\<close>

theorem persistence_precedes_notification:
  "(\<forall>i<length (snd (postBookings e b)).
      (\<exists>m ok. snd (postBookings e b) ! i = SendMail m ok) \<longrightarrow>
      (\<exists>j<i. \<exists>r. snd (postBookings e b) ! j = DbInsert r True))
   \<and> ((\<exists>r. DbInsert r False \<in> set (snd (postBookings e b))) \<longrightarrow>
        attempted (snd (postBookings e b)) = [] \<and> fst (postBookings e b) = serverError)
   \<and> (accepted b \<and> \<not> dbRun e (insertParams (sanitize b) (isoOfTime (clock e 0))) \<longrightarrow>
        postBookings e b =
          (serverError, [DbInsert (insertParams (sanitize b) (isoOfTime (clock e 0))) False]))"
proof (intro conjI allI impI)
  fix i
  assume i: "i < length (snd (postBookings e b))"
    and send: "\<exists>m ok. snd (postBookings e b) ! i = SendMail m ok"
  from events_cases [of e b] show "\<exists>j<i. \<exists>r. snd (postBookings e b) ! j = DbInsert r True"
  proof (elim disjE exE)
    assume "snd (postBookings e b) = []"
    with i show ?thesis by simp
  next
    fix r ok
    assume "snd (postBookings e b) = [DbInsert r ok]"
    with i send show ?thesis by simp
  next
    fix r ics
    assume evs: "snd (postBookings e b) = DbInsert r True # snd (notify e (sanitize b) ics)"
    with send have "0 < i" by (cases i) auto
    with evs show ?thesis by auto
  qed
next
  assume "\<exists>r. DbInsert r False \<in> set (snd (postBookings e b))"
  then obtain r where r: "DbInsert r False \<in> set (snd (postBookings e b))" ..
  have shape: "postBookings e b = (serverError, [DbInsert r False])"
  proof (cases "accepted b")
    case False
    with r show ?thesis
      by (auto simp: postBookings_def accepted_def split: if_splits)
  next
    case True
    show ?thesis
    proof (cases "dbRun e (insertParams (sanitize b) (isoOfTime (clock e 0)))")
      case False
      with True r show ?thesis by (simp add: post_db_down)
    next
      case db: True
      show ?thesis
      proof (cases "calendarPayload e (sanitize b)")
        case (Inl err)
        with True db r show ?thesis by (simp add: post_no_calendar)
      next
        case (Inr ics)
        with True db r notify_events [of e "sanitize b" ics] show ?thesis
          by (auto simp: post_notify)
      qed
    qed
  qed
  then show "attempted (snd (postBookings e b)) = []" by simp
  from shape show "fst (postBookings e b) = serverError" by simp
next
  assume "accepted b \<and> \<not> dbRun e (insertParams (sanitize b) (isoOfTime (clock e 0)))"
  then show "postBookings e b =
          (serverError, [DbInsert (insertParams (sanitize b) (isoOfTime (clock e 0))) False])"
    by (simp add: post_db_down)
qed

text \<open>
  In the run of the worked submission the first send is the second event, after the
  INSERT; with the database down the run stops at the INSERT.
\<close>

theorem persistence_precedes_notification_witness:
  "(\<exists>m ok. snd (postBookings exampleEnv exampleBody) ! 1 = SendMail m ok)
   \<and> (\<exists>r. snd (postBookings exampleEnv exampleBody) ! 0 = DbInsert r True)
   \<and> postBookings (exampleEnv\<lparr>dbRun := \<lambda>r. False\<rparr>) exampleBody
     = (serverError,
        [DbInsert (insertParams (sanitize exampleBody)
           (isoOfTime (clock (exampleEnv\<lparr>dbRun := \<lambda>r. False\<rparr>) 0))) False])
   \<and> attempted (snd (postBookings (exampleEnv\<lparr>dbRun := \<lambda>r. False\<rparr>) exampleBody)) = []"
proof -
  from example_run obtain ics where run: "postBookings exampleEnv exampleBody =
     (bookingReceived,
      [DbInsert (insertParams (sanitize exampleBody) (isoOfTime (clock exampleEnv 0))) True,
       SendMail (ownerMail exampleEnv (sanitize exampleBody) ics) True,
       SendMail (customerMail exampleEnv (sanitize exampleBody) ics) True])" ..
  then have len: "1 < length (snd (postBookings exampleEnv exampleBody))"
    and send: "\<exists>m ok. snd (postBookings exampleEnv exampleBody) ! 1 = SendMail m ok"
    by auto
  with persistence_precedes_notification [of exampleEnv exampleBody]
  have "\<exists>j<1. \<exists>r. snd (postBookings exampleEnv exampleBody) ! j = DbInsert r True"
    by blast
  then have first: "\<exists>r. snd (postBookings exampleEnv exampleBody) ! 0 = DbInsert r True"
    by simp
  from persistence_precedes_notification [of "exampleEnv\<lparr>dbRun := \<lambda>r. False\<rparr>" exampleBody]
    example_accepted
  have down: "postBookings (exampleEnv\<lparr>dbRun := \<lambda>r. False\<rparr>) exampleBody
     = (serverError,
        [DbInsert (insertParams (sanitize exampleBody)
           (isoOfTime (clock (exampleEnv\<lparr>dbRun := \<lambda>r. False\<rparr>) 0))) False])"
    by simp
  from send first down show ?thesis by simp
qed

section \<open>Rows with blank fields\<close>

text \<open>
  Claim C5 does not hold of the handler: the required fields are tested before they are
  trimmed, so a name of three spaces and a phone number of seven spaces pass validation
  and are stored as empty strings.
\<close>

theorem blank_fields_persisted:
  "map clean_name (persisted (snd (postBookings exampleEnv
      (exampleBody\<lparr>body_name := Some (js ''   '')\<rparr>)))) = [[]]
   \<and> map clean_phone (persisted (snd (postBookings exampleEnv
      (exampleBody\<lparr>body_phone := Some (js ''       '')\<rparr>)))) = [[]]"
proof -
  have "sanitizeSmallText (Some (js ''   '')) = []" by code_simp
  then have first: "map clean_name (persisted (snd (postBookings exampleEnv
      (exampleBody\<lparr>body_name := Some (js ''   '')\<rparr>)))) = [[]]"
    by (simp add: persisted_accepted [OF example_blank_name_accepted example_dbRun]
        insertParams_def sanitize_def)
  have "sanitizeSmallText (Some (js ''       '')) = []" by code_simp
  then have second: "map clean_phone (persisted (snd (postBookings exampleEnv
      (exampleBody\<lparr>body_phone := Some (js ''       '')\<rparr>)))) = [[]]"
    by (simp add: persisted_accepted [OF example_blank_phone_accepted example_dbRun]
        insertParams_def sanitize_def)
  from first second show ?thesis by simp
qed

section \<open>The email check\<close>

text \<open>
  Claim C6, as the handler has it. \<open>isEmail\<close> accepts exactly the strings of
  \<open>emailShape\<close>: a local part that is not empty and has no white space or \<^verbatim>\<open>@\<close>, then
  \<^verbatim>\<open>@\<close>, then a domain without white space or \<^verbatim>\<open>@\<close> that has a dot with a character on
  each side. A submission that passes the honeypot gate and the required-field check and
  whose email is not of that shape gets the status 400 with \<^verbatim>\<open>Invalid email address.\<close>,
  and nothing is inserted.
\<close>

theorem email_check:
  "(isEmail (Some s) \<longleftrightarrow> emailShape s)
   \<and> (\<not> honeypot b \<and> \<not> missingRequired b \<and> body_email b = Some s \<and> \<not> emailShape s
       \<longrightarrow> postBookings e b = (Response 400 False (js ''Invalid email address.''), [])
           \<and> persisted (snd (postBookings e b)) = [])"
  by (simp add: isEmail_emailShape [symmetric] post_bad_email)

theorem email_check_witness:
  "isEmail (Some (js ''jo@x.com''))
   \<and> postBookings exampleEnv (exampleBody\<lparr>body_email := Some (js ''not-an-email'')\<rparr>)
       = (Response 400 False (js ''Invalid email address.''), [])"
proof -
  have 1: "emailShape (js ''jo@x.com'')" by code_simp
  have 2: "\<not> emailShape (js ''not-an-email'')" by code_simp
  have 3: "\<not> honeypot (exampleBody\<lparr>body_email := Some (js ''not-an-email'')\<rparr>)" by code_simp
  have 4: "\<not> missingRequired (exampleBody\<lparr>body_email := Some (js ''not-an-email'')\<rparr>)"
    by code_simp
  from email_check [of "js ''jo@x.com''"] 1
    email_check [of "js ''not-an-email''" "exampleBody\<lparr>body_email := Some (js ''not-an-email'')\<rparr>"
      exampleEnv] 2 3 4
  show ?thesis by simp
qed

text \<open>
  Claim C6 as stated fails where an earlier branch answers first: behind a filled
  honeypot the invalid address gets the status 200, and with the name left out the error
  is the one for missing fields.
\<close>

theorem invalid_email_other_responses:
  "\<not> isEmail (Some (js ''not-an-email''))
   \<and> postBookings exampleEnv
       (exampleBody\<lparr>body_email := Some (js ''not-an-email''),
                     body_website := Some (js ''http://spam.biz'')\<rparr>)
       = (Response 200 True (js ''Thanks!''), [])
   \<and> postBookings exampleEnv
       (exampleBody\<lparr>body_name := None, body_email := Some (js ''not-an-email'')\<rparr>)
       = (Response 400 False (js ''Missing required fields.''), [])"
proof -
  have 1: "\<not> isEmail (Some (js ''not-an-email''))" by code_simp
  have "honeypot (exampleBody\<lparr>body_email := Some (js ''not-an-email''),
                     body_website := Some (js ''http://spam.biz'')\<rparr>)" by code_simp
  then have 2: "postBookings exampleEnv
       (exampleBody\<lparr>body_email := Some (js ''not-an-email''),
                     body_website := Some (js ''http://spam.biz'')\<rparr>)
       = (Response 200 True (js ''Thanks!''), [])"
    by (rule post_honeypot)
  have "\<not> honeypot (exampleBody\<lparr>body_name := None, body_email := Some (js ''not-an-email'')\<rparr>)"
    "missingRequired (exampleBody\<lparr>body_name := None, body_email := Some (js ''not-an-email'')\<rparr>)"
    by code_simp+
  then have 3: "postBookings exampleEnv
       (exampleBody\<lparr>body_name := None, body_email := Some (js ''not-an-email'')\<rparr>)
       = (Response 400 False (js ''Missing required fields.''), [])"
    by (rule post_missing)
  from 1 2 3 show ?thesis by simp
qed

section \<open>The phone check\<close>

text \<open>
  Claim C7, as the handler has it. \<open>isPhone\<close> accepts exactly the strings of
  \<open>phoneShape\<close>: seven or more characters, each a digit, a hyphen, a plus, a parenthesis
  or white space (any character of \<^verbatim>\<open>\s\<close>, the space among them), so every string of seven or
  more digits, hyphens, pluses, parentheses and spaces passes. A submission that passes
  the honeypot gate, the required-field check and the email check and whose phone is not
  of that shape gets the status 400 with \<^verbatim>\<open>Invalid phone number.\<close>, and nothing is
  inserted.
\<close>

theorem phone_check:
  "(isPhone (Some s) \<longleftrightarrow> phoneShape s)
   \<and> (plainPhoneShape s \<longrightarrow> isPhone (Some s))
   \<and> (\<not> honeypot b \<and> \<not> missingRequired b \<and> isEmail (body_email b)
        \<and> body_phone b = Some s \<and> \<not> phoneShape s
       \<longrightarrow> postBookings e b = (Response 400 False (js ''Invalid phone number.''), [])
           \<and> persisted (snd (postBookings e b)) = [])"
  using plainPhoneShape_phoneShape [of s]
  by (simp add: isPhone_phoneShape [symmetric] post_bad_phone)

theorem phone_check_witness:
  "isPhone (Some (js ''(555) 121-2000''))
   \<and> postBookings exampleEnv (exampleBody\<lparr>body_phone := Some (js ''12345'')\<rparr>)
       = (Response 400 False (js ''Invalid phone number.''), [])"
proof -
  have 1: "plainPhoneShape (js ''(555) 121-2000'')" by code_simp
  have 2: "\<not> phoneShape (js ''12345'')" by code_simp
  have 3: "\<not> honeypot (exampleBody\<lparr>body_phone := Some (js ''12345'')\<rparr>)" by code_simp
  have 4: "\<not> missingRequired (exampleBody\<lparr>body_phone := Some (js ''12345'')\<rparr>)" by code_simp
  have 5: "isEmail (body_email (exampleBody\<lparr>body_phone := Some (js ''12345'')\<rparr>))" by code_simp
  from phone_check [of "js ''(555) 121-2000''"] 1
  have a: "isPhone (Some (js ''(555) 121-2000''))" by blast
  from phone_check [of "js ''12345''" "exampleBody\<lparr>body_phone := Some (js ''12345'')\<rparr>" exampleEnv]
    2 3 4 5
  have b: "postBookings exampleEnv (exampleBody\<lparr>body_phone := Some (js ''12345'')\<rparr>)
       = (Response 400 False (js ''Invalid phone number.''), [])" by simp
  from a b show ?thesis by simp
qed

text \<open>
  Claim C7 as stated fails where an earlier branch answers first: with an invalid
  address as well, the error is the one for the email. And a tab among the digits, which
  is none of the characters the claim lists, passes the check: the row is inserted.
\<close>

theorem invalid_phone_other_responses:
  "\<not> isPhone (Some (js ''12345''))
   \<and> postBookings exampleEnv
       (exampleBody\<lparr>body_email := Some (js ''not-an-email''), body_phone := Some (js ''12345'')\<rparr>)
       = (Response 400 False (js ''Invalid email address.''), [])
   \<and> \<not> plainPhoneShape (js ''555'' @ 9 # js ''1212'')
   \<and> map clean_phone (persisted (snd (postBookings exampleEnv
        (exampleBody\<lparr>body_phone := Some (js ''555'' @ 9 # js ''1212'')\<rparr>))))
       = [js ''555'' @ 9 # js ''1212'']"
proof -
  have 1: "\<not> isPhone (Some (js ''12345''))" by code_simp
  have "\<not> honeypot (exampleBody\<lparr>body_email := Some (js ''not-an-email''), body_phone := Some (js ''12345'')\<rparr>)"
    "\<not> missingRequired (exampleBody\<lparr>body_email := Some (js ''not-an-email''), body_phone := Some (js ''12345'')\<rparr>)"
    "\<not> isEmail (body_email (exampleBody\<lparr>body_email := Some (js ''not-an-email''), body_phone := Some (js ''12345'')\<rparr>))"
    by code_simp+
  then have 2: "postBookings exampleEnv
       (exampleBody\<lparr>body_email := Some (js ''not-an-email''), body_phone := Some (js ''12345'')\<rparr>)
       = (Response 400 False (js ''Invalid email address.''), [])"
    by (rule post_bad_email)
  have 3: "\<not> plainPhoneShape (js ''555'' @ 9 # js ''1212'')" by code_simp
  have acc: "accepted (exampleBody\<lparr>body_phone := Some (js ''555'' @ 9 # js ''1212'')\<rparr>)"
    by code_simp
  have "sanitizeSmallText (Some (js ''555'' @ 9 # js ''1212'')) = js ''555'' @ 9 # js ''1212''"
    by code_simp
  then have 4: "map clean_phone (persisted (snd (postBookings exampleEnv
        (exampleBody\<lparr>body_phone := Some (js ''555'' @ 9 # js ''1212'')\<rparr>))))
       = [js ''555'' @ 9 # js ''1212'']"
    by (simp add: persisted_accepted [OF acc example_dbRun] insertParams_def sanitize_def)
  from 1 2 3 4 show ?thesis by simp
qed

section \<open>The calendar window\<close>



section \<open>Square feet\<close>

text \<open>
  Claim C9, as the handler has it. \<open>toInt\<close> is total and returns an integer or \<^verbatim>\<open>null\<close>.
  A numeric text (decimal digits after an optional sign) of magnitude below 2^53 is
  stored as the integer it denotes, also behind leading white space and before any text
  that does not start with a digit; a value with no digit after its leading white space
  and optional sign is stored as \<^verbatim>\<open>null\<close>, and so is a field left out.
\<close>

theorem toInt_reads_leading_integer:
  "(numericText s \<and> \<bar>integerOf s\<bar> < 2 ^ 53 \<and> (\<forall>c\<in>set ws. isWhiteSpace c)
      \<and> (rest = [] \<or> \<not> isDigit (hd rest))
     \<longrightarrow> toInt (Some s) = Some (integerOf s) \<and> toInt (Some (ws @ s @ rest)) = Some (integerOf s))
   \<and> ((let s' = dropWhile isWhiteSpace s;
            d = (if s' \<noteq> [] \<and> (hd s' = 43 \<or> hd s' = 45) then tl s' else s')
        in d = [] \<or> \<not> isDigit (hd d))
     \<longrightarrow> toInt (Some s) = None)
   \<and> toInt None = None"
proof (intro conjI impI)
  assume a: "numericText s \<and> \<bar>integerOf s\<bar> < 2 ^ 53 \<and> (\<forall>c\<in>set ws. isWhiteSpace c)
      \<and> (rest = [] \<or> \<not> isDigit (hd rest))"
  then show "toInt (Some (ws @ s @ rest)) = Some (integerOf s)"
    by (simp add: toInt_numeric)
  from a toInt_numeric [of s "[]" "[]"] show "toInt (Some s) = Some (integerOf s)"
    by simp
next
  assume "let s' = dropWhile isWhiteSpace s;
            d = (if s' \<noteq> [] \<and> (hd s' = 43 \<or> hd s' = 45) then tl s' else s')
        in d = [] \<or> \<not> isDigit (hd d)"
  then show "toInt (Some s) = None" by (rule toInt_no_digits)
next
  show "toInt None = None" by (rule toInt_None)
qed

theorem toInt_reads_leading_integer_witness:
  "toInt (Some (js ''1200'')) = Some 1200
   \<and> toInt (Some (js ''  '' @ js ''1200'' @ js '' sqft'')) = Some 1200
   \<and> toInt (Some (js ''n/a'')) = None"
  using toInt_reads_leading_integer [of "js ''1200''" "js ''  ''" "js '' sqft''"]
    toInt_reads_leading_integer [of "js ''n/a''"]
    example_numeric example_integer example_suffix example_no_digits
  by (simp add: js_def isWhiteSpace_def)

text \<open>
  Claim C9 as stated fails both ways: \<^verbatim>\<open>1200 sqft\<close> is not numeric and is stored as 1200,
  and a run of 309 nines is numeric and is stored as \<^verbatim>\<open>null\<close>, being infinite as a double.
\<close>

theorem toInt_suffix_and_overflow:
  "\<not> numericText (js ''1200 sqft'') \<and> toInt (Some (js ''1200 sqft'')) = Some 1200
   \<and> numericText (replicate 309 57) \<and> toInt (Some (replicate 309 57)) = None"
proof -
  have "\<not> numericText (js ''1200 sqft'')" by code_simp
  moreover have "toInt (Some (js ''1200 sqft'')) = Some 1200" by code_simp
  moreover have "numericText (replicate 309 57)" by code_simp
  moreover have "toInt (Some (replicate 309 57)) = None" by code_simp
  ultimately show ?thesis by simp
qed

section \<open>Notes left out\<close>

text \<open>
  Claim C10. When the notes field is left out of a submission that passes validation and
  whose INSERT succeeds, the one row inserted has the empty string as its notes:
  \<^verbatim>\<open>sanitizeText(undefined)\<close> is \<^verbatim>\<open>''\<close>, and the handler never binds \<^verbatim>\<open>null\<close> to that column.
\<close>

theorem omitted_notes_stored_as_empty_string:
  assumes "body_notes b = None"
      and "accepted b"
      and "dbRun e (insertParams (sanitize b) (isoOfTime (clock e 0)))"
  shows "\<exists>r. persisted (snd (postBookings e b)) = [r] \<and> clean_notes r = []"
proof -
  from assms(1) have "sanitizeText (body_notes b) = []"
    by (simp add: sanitizeText_def orEmpty_def falsy_def slice0_def trim_Nil)
  then have "clean_notes (insertParams (sanitize b) (isoOfTime (clock e 0))) = []"
    by (simp add: insertParams_def sanitize_def)
  with persisted_accepted [OF assms(2,3)] show ?thesis by simp
qed

theorem omitted_notes_stored_as_empty_string_witness:
  "body_notes exampleBody = None
   \<and> (\<exists>r. persisted (snd (postBookings exampleEnv exampleBody)) = [r] \<and> clean_notes r = [])"
  using omitted_notes_stored_as_empty_string [of exampleBody exampleEnv]
    example_accepted example_dbRun
  by (simp add: exampleBody_def)

end
